theory Spec2Isabelle
  imports Complex_Main "HOL-Library.Multiset"
begin

section \<open>Python and tensor primitives used by \<open>dataset.py\<close>\<close>

text \<open>
  Seconds are Python floats in the source; they are modelled as exact reals, so
  every statement below is about the arithmetic the code writes down, not about
  binary rounding of the products. Frame indices are Python integers (\<open>int\<close>).
  A two-dimensional tensor is a list of rows (one row per spectral frame).
\<close>

datatype error = IndexError | KeyError | RuntimeError

type_synonym tensor2 = "real list list"

text \<open>\<open>xs[i]\<close> on a Python list: an index in \<open>[-len, -1]\<close> counts from the end,
  anything outside \<open>[-len, len)\<close> raises \<open>IndexError\<close>.\<close>

definition py_index :: "'a list \<Rightarrow> int \<Rightarrow> error + 'a" where
  "py_index xs i =
     (if 0 \<le> i \<and> i < int (length xs) then Inr (xs ! nat i)
      else if i < 0 \<and> - int (length xs) \<le> i then Inr (xs ! nat (int (length xs) + i))
      else Inl IndexError)"

text \<open>One bound of a slice \<open>[a:b]\<close> over a sequence of length \<open>n\<close>: a negative bound
  is shifted by \<open>n\<close>, and the result is clipped to \<open>[0, n]\<close>.\<close>

definition slice_bound :: "nat \<Rightarrow> int \<Rightarrow> nat" where
  "slice_bound n i = (if i < 0 then nat (max 0 (int n + i)) else min n (nat i))"

text \<open>\<open>t[a:b, :]\<close>: the rows from the clipped lower bound up to the clipped upper
  bound; empty when the bounds cross.\<close>

definition py_slice :: "'a list \<Rightarrow> int \<Rightarrow> int \<Rightarrow> 'a list" where
  "py_slice xs a b =
     take (slice_bound (length xs) b - slice_bound (length xs) a)
          (drop (slice_bound (length xs) a) xs)"

text \<open>\<open>torch.zeros((r, c))\<close>: a negative dimension is a runtime error.\<close>

definition zeros :: "int \<Rightarrow> nat \<Rightarrow> error + tensor2" where
  "zeros r c = (if r < 0 then Inl RuntimeError else Inr (replicate (nat r) (replicate c 0)))"

text \<open>Python 3 \<open>round\<close> on a float, followed by \<open>int\<close>: nearest integer, ties to the
  even neighbour.\<close>

definition py_round :: "real \<Rightarrow> int" where
  "py_round x =
     (if x - of_int \<lfloor>x\<rfloor> < 1 / 2 then \<lfloor>x\<rfloor>
      else if 1 / 2 < x - of_int \<lfloor>x\<rfloor> then \<lfloor>x\<rfloor> + 1
      else if even \<lfloor>x\<rfloor> then \<lfloor>x\<rfloor> else \<lfloor>x\<rfloor> + 1)"

text \<open>The second-to-frame conversion written out at lines 37, 38, 50 and 68:
  \<open>int(round(t * 22050 / 512))\<close>.\<close>

definition sec_to_frame :: "real \<Rightarrow> int" where
  "sec_to_frame t = py_round (t * 22050 / 512)"


section \<open>The dataset object\<close>

text \<open>A positive sample is \<open>(version, act, motif, start_frame, end_frame)\<close>, a negative
  sample is \<open>(version, act, start_frame, end_frame)\<close>; \<open>cqt\<close> and \<open>instances_gt\<close> are
  dictionaries keyed by the file stem.\<close>

type_synonym pos_sample = "string \<times> string \<times> string \<times> int \<times> int"
type_synonym neg_sample = "string \<times> string \<times> int \<times> int"

record dataset =
  cqt :: "string \<rightharpoonup> tensor2"
  instances_gt :: "string \<rightharpoonup> tensor2"
  samples :: "pos_sample list"
  none_samples :: "neg_sample list"
  duration_sec :: real

text \<open>The dictionary key \<open>f"{version}_{act}"\<close>.\<close>

definition fn_key :: "string \<Rightarrow> string \<Rightarrow> string" where
  "fn_key version act = version @ ''_'' @ act"

text \<open>\<open>d[k]\<close> on a dictionary.\<close>

definition dict_get :: "('k \<rightharpoonup> 'v) \<Rightarrow> 'k \<Rightarrow> error + 'v" where
  "dict_get d k = (case d k of None \<Rightarrow> Inl KeyError | Some v \<Rightarrow> Inr v)"

text \<open>\<open>LeitmotifDataset.__len__\<close>.\<close>

definition len_dataset :: "dataset \<Rightarrow> nat" where
  "len_dataset ds = length (samples ds) + length (none_samples ds)"

text \<open>\<open>LeitmotifDataset.__getitem__\<close>. The operands of the returned tuple are
  evaluated left to right, so the spectral lookup fails before the label window is
  built.\<close>

definition getitem :: "dataset \<Rightarrow> int \<Rightarrow> error + (tensor2 \<times> tensor2)" where
  "getitem ds idx =
     (if idx < int (length (samples ds)) then
        (case py_index (samples ds) idx of
           Inl e \<Rightarrow> Inl e
         | Inr (version, act, motif, start, end) \<Rightarrow>
             (case dict_get (cqt ds) (fn_key version act) of
                Inl e \<Rightarrow> Inl e
              | Inr c \<Rightarrow>
                  (case dict_get (instances_gt ds) (fn_key version act) of
                     Inl e \<Rightarrow> Inl e
                   | Inr g \<Rightarrow> Inr (py_slice c start end, py_slice g start end))))
      else
        (case py_index (none_samples ds) (idx - int (length (samples ds))) of
           Inl e \<Rightarrow> Inl e
         | Inr (version, act, start, end) \<Rightarrow>
             (case dict_get (cqt ds) (fn_key version act) of
                Inl e \<Rightarrow> Inl e
              | Inr c \<Rightarrow>
                  (case zeros (end - start) 21 of
                     Inl e \<Rightarrow> Inl e
                   | Inr z \<Rightarrow> Inr (py_slice c start end, z)))))"

text \<open>\<open>LeitmotifDataset.get_subset_idxs\<close>. \<open>versions\<close> and \<open>acts\<close> default to \<open>None\<close>;
  \<open>x[0]\<close> is the version and \<open>x[1]\<close> the act of a sample tuple.\<close>

definition get_subset_idxs :: "dataset \<Rightarrow> string set option \<Rightarrow> string set option \<Rightarrow> nat list" where
  "get_subset_idxs ds versions acts =
     (case (versions, acts) of
        (None, None) \<Rightarrow> [0 ..< length (samples ds) + length (none_samples ds)]
      | (None, Some A) \<Rightarrow>
          [idx. (idx, x) \<leftarrow> enumerate 0 (samples ds), fst (snd x) \<in> A]
          @ [idx + length (samples ds). (idx, x) \<leftarrow> enumerate 0 (none_samples ds), fst (snd x) \<in> A]
      | (Some V, None) \<Rightarrow>
          [idx. (idx, x) \<leftarrow> enumerate 0 (samples ds), fst x \<in> V]
          @ [idx + length (samples ds). (idx, x) \<leftarrow> enumerate 0 (none_samples ds), fst x \<in> V]
      | (Some V, Some A) \<Rightarrow>
          [idx. (idx, x) \<leftarrow> enumerate 0 (samples ds), fst x \<in> V \<and> fst (snd x) \<in> A]
          @ [idx + length (samples ds). (idx, x) \<leftarrow> enumerate 0 (none_samples ds),
               fst x \<in> V \<and> fst (snd x) \<in> A])"


section \<open>The helpers imported from \<open>data_utils\<close>\<close>

text \<open>
  \<open>dataset.py\<close> imports \<open>motif2idx\<close>, \<open>sample_instance_intervals\<close>,
  \<open>generate_non_overlapping_intervals\<close> and \<open>sample_non_overlapping_interval\<close> from a
  module that is not part of the sources. The constructor below takes them as a
  parameter. An annotated instance is a CSV row \<open>(motif, start_sec, end_sec)\<close>; an
  occupied entry is such a row or \<open>(None, start_sec, end_sec)\<close>. The random sampler
  threads the state of its random source, a counter, through its calls.
\<close>

type_synonym annotation = "string \<times> real \<times> real"
type_synonym occupied = "string option \<times> real \<times> real"
type_synonym interval = "real \<times> real"

record data_utils =
  motif2idx :: "string \<rightharpoonup> int"
  sample_instance_intervals :: "annotation list \<Rightarrow> real \<Rightarrow> int \<Rightarrow> annotation list"
  generate_non_overlapping_intervals :: "occupied list \<Rightarrow> int \<Rightarrow> interval list"
  sample_non_overlapping_interval :: "interval list \<Rightarrow> real \<Rightarrow> nat \<Rightarrow> interval option \<times> nat"

section \<open>The constructor\<close>

subsection \<open>Ground-truth tensor (lines 31 to 43)\<close>

text \<open>An integer index into a dimension of size \<open>n\<close>: negative indices wrap once,
  anything else out of range raises \<open>IndexError\<close>.\<close>

definition col_index :: "nat \<Rightarrow> int \<Rightarrow> error + nat" where
  "col_index n j =
     (if 0 \<le> j \<and> j < int n then Inr (nat j)
      else if j < 0 \<and> - int n \<le> j then Inr (nat (int n + j))
      else Inl IndexError)"

text \<open>\<open>g[a:b, j] = 1\<close>: column \<open>j\<close> of the rows selected by the slice is set to 1.\<close>

definition set_rows :: "tensor2 \<Rightarrow> int \<Rightarrow> int \<Rightarrow> nat \<Rightarrow> tensor2" where
  "set_rows g a b j =
     map (\<lambda>(i, row). if slice_bound (length g) a \<le> i \<and> i < slice_bound (length g) b
                        then row[j := 1] else row)
         (enumerate 0 g)"

text \<open>The body of the loop over the annotated instances (lines 34 to 40).\<close>

definition mark_instance :: "data_utils \<Rightarrow> tensor2 \<Rightarrow> annotation \<Rightarrow> error + tensor2" where
  "mark_instance U g inst =
     (case inst of (motif, start, end) \<Rightarrow>
        (case dict_get (motif2idx U) motif of
           Inl e \<Rightarrow> Inl e
         | Inr motif_idx \<Rightarrow>
             (case col_index 21 motif_idx of
                Inl e \<Rightarrow> Inl e
              | Inr j \<Rightarrow> Inr (set_rows g (sec_to_frame start) (sec_to_frame end) j))))"

fun mark_instances :: "data_utils \<Rightarrow> tensor2 \<Rightarrow> annotation list \<Rightarrow> error + tensor2" where
  "mark_instances U g [] = Inr g"
| "mark_instances U g (inst # rest) =
     (case mark_instance U g inst of
        Inl e \<Rightarrow> Inl e
      | Inr g' \<Rightarrow> mark_instances U g' rest)"

text \<open>\<open>max(dim=1).values\<close> on one row.\<close>

definition row_max :: "real list \<Rightarrow> real" where
  "row_max xs = foldl max (hd xs) (tl xs)"

text \<open>Line 43: the last column becomes one minus the row maximum of the others.\<close>

definition add_none :: "tensor2 \<Rightarrow> tensor2" where
  "add_none g = map (\<lambda>row. row[length row - 1 := 1 - row_max (butlast row)]) g"

definition build_gt :: "data_utils \<Rightarrow> nat \<Rightarrow> annotation list \<Rightarrow> error + tensor2" where
  "build_gt U n instances =
     (case mark_instances U (replicate n (replicate 21 0)) instances of
        Inl e \<Rightarrow> Inl e
      | Inr g \<Rightarrow> Inr (add_none g))"

subsection \<open>Positive and negative samples (lines 45 to 69)\<close>

text \<open>Line 28: \<open>shape[0] * 512 // 22050\<close>.\<close>

definition total_duration :: "nat \<Rightarrow> int" where
  "total_duration n = int n * 512 div 22050"

text \<open>Line 50, for one element \<open>x\<close> of \<open>sample_instance_intervals(...)\<close>.\<close>

definition positive_sample :: "string \<Rightarrow> string \<Rightarrow> int \<Rightarrow> annotation \<Rightarrow> pos_sample" where
  "positive_sample version act duration_samples x =
     (version, act, fst x, sec_to_frame (fst (snd x)),
      sec_to_frame (fst (snd x)) + duration_samples)"

text \<open>Line 68, for one sampled interval \<open>x\<close>.\<close>

definition negative_sample :: "string \<Rightarrow> string \<Rightarrow> int \<Rightarrow> interval \<Rightarrow> neg_sample" where
  "negative_sample version act duration_samples x =
     (version, act, sec_to_frame (fst x), sec_to_frame (fst x) + duration_samples)"

text \<open>The \<open>while not depleted\<close> loop (lines 57 to 65). It has no bound of its own, so
  the model is a partial function: \<open>None\<close> is a loop that never ends.\<close>

partial_function (option) none_loop ::
  "data_utils \<Rightarrow> int \<Rightarrow> real \<Rightarrow> occupied list \<Rightarrow> interval list \<Rightarrow> interval list \<Rightarrow> nat
     \<Rightarrow> (interval list \<times> nat) option" where
  "none_loop U tot d occ none_intervals none_samples_act rng =
     (case sample_non_overlapping_interval U none_intervals d rng of
        (None, rng') \<Rightarrow> Some (none_samples_act, rng')
      | (Some samp, rng') \<Rightarrow>
          none_loop U tot d (occ @ [(None, fst samp, snd samp)])
            (generate_non_overlapping_intervals U (occ @ [(None, fst samp, snd samp)]) tot)
            (none_samples_act @ [samp]) rng')"

declare none_loop.simps [code]

text \<open>Lines 54 to 68 for one recording.\<close>

definition none_samples_of ::
  "data_utils \<Rightarrow> string \<Rightarrow> string \<Rightarrow> int \<Rightarrow> real \<Rightarrow> int \<Rightarrow> annotation list \<Rightarrow> nat
     \<Rightarrow> (neg_sample list \<times> nat) option" where
  "none_samples_of U version act tot d duration_samples instances rng =
     (let occ = map (\<lambda>(m, s, e). (Some m, s, e)) instances in
      case none_loop U tot d occ (generate_non_overlapping_intervals U occ tot) [] rng of
        None \<Rightarrow> None
      | Some (acc, rng') \<Rightarrow>
          Some (map (negative_sample version act duration_samples) (sort_key fst acc), rng'))"

subsection \<open>The loop over the cache files\<close>

text \<open>\<open>str.split("_")\<close>.\<close>

fun split_us :: "string \<Rightarrow> string list" where
  "split_us [] = [[]]"
| "split_us (c # cs) =
     (if c = CHR ''_'' then [] # split_us cs
      else (case split_us cs of
              [] \<Rightarrow> [[c]]
            | p # ps \<Rightarrow> (c # p) # ps))"

text \<open>
  One element of \<open>pkl_fns\<close> with what the body of the loop reads from disk: the stem
  of the file, the tensor \<open>torch.tensor(pickle.load(f)).T\<close> (one row per frame), and
  the rows of the annotation CSV.
\<close>

record pkl_file =
  stem :: string
  frames :: tensor2
  csv_rows :: "annotation list"

text \<open>The body of \<open>for fn in tqdm(pkl_fns)\<close>. \<open>fn.stem.split("_")[1]\<close> raises
  \<open>IndexError\<close> on a stem without an underscore (line 32, before the instances are
  marked). The outer \<open>option\<close> is \<open>None\<close> when the negative-sampling loop never ends.\<close>

definition add_recording ::
  "data_utils \<Rightarrow> real \<Rightarrow> int \<Rightarrow> dataset \<Rightarrow> pkl_file \<Rightarrow> nat \<Rightarrow> (error + dataset \<times> nat) option" where
  "add_recording U d duration_samples ds fn rng =
     (let tot = total_duration (length (frames fn)) in
      if length (split_us (stem fn)) < 2 then Some (Inl IndexError)
      else
        (let version = split_us (stem fn) ! 0; act = split_us (stem fn) ! 1 in
         case build_gt U (length (frames fn)) (csv_rows fn) of
           Inl e \<Rightarrow> Some (Inl e)
         | Inr g \<Rightarrow>
             (case none_samples_of U version act tot d duration_samples (csv_rows fn) rng of
                None \<Rightarrow> None
              | Some (none_samples_act, rng') \<Rightarrow>
                  Some (Inr (ds\<lparr>cqt := (cqt ds)(stem fn \<mapsto> frames fn),
                              instances_gt := (instances_gt ds)(stem fn \<mapsto> g),
                              samples := samples ds
                                @ map (positive_sample version act duration_samples)
                                      (sample_instance_intervals U (csv_rows fn) d tot),
                              none_samples := none_samples ds @ none_samples_act\<rparr>,
                             rng')))))"

fun init_loop ::
  "data_utils \<Rightarrow> real \<Rightarrow> int \<Rightarrow> dataset \<Rightarrow> pkl_file list \<Rightarrow> nat \<Rightarrow> (error + dataset \<times> nat) option" where
  "init_loop U d duration_samples ds [] rng = Some (Inr (ds, rng))"
| "init_loop U d duration_samples ds (fn # fns) rng =
     (case add_recording U d duration_samples ds fn rng of
        None \<Rightarrow> None
      | Some (Inl e) \<Rightarrow> Some (Inl e)
      | Some (Inr (ds', rng')) \<Rightarrow> init_loop U d duration_samples ds' fns rng')"

text \<open>\<open>LeitmotifDataset.__init__\<close>, given the sorted list \<open>pkl_fns\<close> and the initial
  state of the random source.\<close>

definition init ::
  "data_utils \<Rightarrow> pkl_file list \<Rightarrow> real \<Rightarrow> int \<Rightarrow> nat \<Rightarrow> (error + dataset \<times> nat) option" where
  "init U pkl_fns d duration_samples rng =
     init_loop U d duration_samples
       \<lparr>cqt = Map.empty, instances_gt = Map.empty, samples = [], none_samples = [],
        duration_sec = d\<rparr> pkl_fns rng"

section \<open>The converter \<open>data/convert.py\<close>\<close>

text \<open>
  \<open>librosa.util.normalize(S, axis=0, norm=np.inf)\<close> on a matrix given as the list of
  its rows: the norm is taken along axis 0, that is over the rows for each column, a
  column whose norm is below the threshold is divided by 1, every other column by its
  norm. The threshold is librosa's \<open>tiny(S)\<close>, a parameter here.
\<close>

definition axis0_norm :: "real list list \<Rightarrow> nat \<Rightarrow> real" where
  "axis0_norm S j = row_max (map (\<lambda>row. \<bar>row ! j\<bar>) S)"

definition normalize :: "real \<Rightarrow> real list list \<Rightarrow> real list list" where
  "normalize tiny S =
     map (\<lambda>row. map (\<lambda>(j, x). x / (if axis0_norm S j < tiny then 1 else axis0_norm S j))
                     (enumerate 0 row)) S"

text \<open>Line 17, on the magnitude matrix \<open>cqt_mag = np.abs(cqt)\<close> of line 16, of shape
  \<open>(n_bins, n_frames)\<close>: the result is the matrix that is pickled.\<close>

definition convert :: "real \<Rightarrow> real list list \<Rightarrow> real list list" where
  "convert tiny cqt_mag = normalize tiny cqt_mag"

section \<open>The interval helpers as the specification describes them\<close>

text \<open>Modelled from the spec: \<open>generate_non_overlapping_intervals\<close> of the missing
  module \<open>data_utils\<close>, the spec's \<open>free_regions\<close>: the occupied intervals are ordered
  by start and swept from 0, a gap before an occupied interval is a free region, and
  what is left before the total duration is the last one.\<close>

fun sweep :: "real \<Rightarrow> real \<Rightarrow> occupied list \<Rightarrow> interval list" where
  "sweep T cur [] = (if cur < T then [(cur, T)] else [])"
| "sweep T cur ((l, s, e) # rest) =
     (if cur < min s T then (cur, min s T) # sweep T (max cur e) rest
      else sweep T (max cur e) rest)"

definition free_regions :: "occupied list \<Rightarrow> int \<Rightarrow> interval list" where
  "free_regions occ tot = sweep (of_int tot) 0 (sort_key (\<lambda>x. fst (snd x)) occ)"

text \<open>Modelled from the spec: \<open>sample_non_overlapping_interval\<close> of the missing module
  \<open>data_utils\<close>, the spec's \<open>sample_free_interval\<close>. A draw of the random source is a
  pair \<open>(k, u)\<close>: \<open>k\<close> picks one of the free regions that are long enough, \<open>u\<close>, clipped
  to \<open>[0, 1]\<close>, the start offset inside the feasible part of that region. No region
  long enough is the unavailable signal \<open>None\<close>.\<close>

definition sample_free_interval ::
  "(nat \<Rightarrow> nat \<times> real) \<Rightarrow> interval list \<Rightarrow> real \<Rightarrow> nat \<Rightarrow> interval option \<times> nat" where
  "sample_free_interval draws regions d rng =
     (let fit = filter (\<lambda>r. d \<le> snd r - fst r) regions in
      if fit = [] then (None, rng)
      else
        (let r = fit ! (fst (draws rng) mod length fit);
             u = max 0 (min 1 (snd (draws rng)));
             s = fst r + u * (snd r - fst r - d)
         in (Some (s, s + d), Suc rng)))"

text \<open>Modelled from the spec: \<open>sample_instance_intervals\<close> of the missing module
  \<open>data_utils\<close>, the spec's positive sampling: one window per annotated instance; the
  window of an instance shorter than the window starts at the instance's start,
  clamped into the recording; the window of a longer instance starts at its start.\<close>

definition positive_windows :: "annotation list \<Rightarrow> real \<Rightarrow> int \<Rightarrow> annotation list" where
  "positive_windows instances d tot =
     map (\<lambda>(m, s, e).
            (m, (if e - s < d then max 0 (min s (of_int tot - d)) else s),
                (if e - s < d then max 0 (min s (of_int tot - d)) else s) + d))
         instances"

text \<open>The helpers of the specification, for a motif table and a random source.\<close>

definition spec_utils :: "(string \<rightharpoonup> int) \<Rightarrow> (nat \<Rightarrow> nat \<times> real) \<Rightarrow> data_utils" where
  "spec_utils table draws =
     \<lparr>motif2idx = table,
      sample_instance_intervals = positive_windows,
      generate_non_overlapping_intervals = free_regions,
      sample_non_overlapping_interval = sample_free_interval draws\<rparr>"

section \<open>Reference definitions for the refinement statements\<close>

text \<open>The version and act of the sample that a global index addresses: positive
  samples first, negative samples after them.\<close>

definition sample_rec :: "dataset \<Rightarrow> nat \<Rightarrow> string \<times> string" where
  "sample_rec ds i =
     (if i < length (samples ds) then (fst (samples ds ! i), fst (snd (samples ds ! i)))
      else (fst (none_samples ds ! (i - length (samples ds))),
            fst (snd (none_samples ds ! (i - length (samples ds))))))"

text \<open>A filter that is absent accepts everything.\<close>

definition selected :: "string set option \<Rightarrow> string set option \<Rightarrow> string \<times> string \<Rightarrow> bool" where
  "selected versions acts va =
     ((case versions of None \<Rightarrow> True | Some V \<Rightarrow> fst va \<in> V)
      \<and> (case acts of None \<Rightarrow> True | Some A \<Rightarrow> snd va \<in> A))"

text \<open>The specification of \<open>subset_indices\<close>: the global indices, in increasing order,
  whose recording passes both filters.\<close>

definition subset_spec :: "dataset \<Rightarrow> string set option \<Rightarrow> string set option \<Rightarrow> nat list" where
  "subset_spec ds versions acts =
     filter (\<lambda>i. selected versions acts (sample_rec ds i))
            [0 ..< length (samples ds) + length (none_samples ds)]"

section \<open>Auxiliary predicates and concrete inputs\<close>

text \<open>The invariant of the instance loop: every row has the 21 label columns and holds
  only zeros and ones.\<close>

definition binary_rows :: "tensor2 \<Rightarrow> bool" where
  "binary_rows g = (\<forall>row \<in> set g. length row = 21 \<and> set row \<subseteq> {0, 1})"

text \<open>A two-motif vocabulary and the specification's helpers with a constant random
  source, for the concrete runs below.\<close>

definition demo_table :: "string \<rightharpoonup> int" where
  "demo_table = [''MotifA'' \<mapsto> 0, ''MotifB'' \<mapsto> 3]"

definition demo_draws :: "nat \<Rightarrow> nat \<times> real" where
  "demo_draws n = (0, 1 / 2)"

definition demo_utils :: data_utils where
  "demo_utils = spec_utils demo_table demo_draws"











text \<open>A random source whose draw puts the sampled window 0.03485 s into the first fitting
  free region of the run below, and the specification's helpers with it.\<close>

definition edge_draws :: "nat \<Rightarrow> nat \<times> real" where
  "edge_draws n = (0, 697 / 698)"

definition edge_utils :: data_utils where
  "edge_utils = spec_utils demo_table edge_draws"

section \<open>Verified properties\<close>

subsection \<open>The accessor on out-of-range indices\<close>

text \<open>
  Claim C9. A global index at or beyond \<open>len(samples) + len(none_samples)\<close> makes the
  accessor raise \<open>IndexError\<close>; no sample is returned.
\<close>

theorem getitem_beyond_end:
  "int (length (samples ds) + length (none_samples ds)) \<le> idx
     \<Longrightarrow> getitem ds idx = Inl IndexError"
  by (simp add: getitem_def py_index_def)

theorem getitem_beyond_end_witness:
  "int (length (samples \<lparr>cqt = Map.empty, instances_gt = Map.empty,
        samples = [(''A'', ''1'', ''m'', 0, 2)], none_samples = [(''A'', ''1'', 3, 5)],
        duration_sec = 15\<rparr>)
      + length (none_samples \<lparr>cqt = Map.empty, instances_gt = Map.empty,
        samples = [(''A'', ''1'', ''m'', 0, 2)], none_samples = [(''A'', ''1'', 3, 5)],
        duration_sec = 15\<rparr>)) \<le> 2
   \<and> getitem \<lparr>cqt = Map.empty, instances_gt = Map.empty,
        samples = [(''A'', ''1'', ''m'', 0, 2)], none_samples = [(''A'', ''1'', 3, 5)],
        duration_sec = 15\<rparr> 2 = Inl IndexError"
  using getitem_beyond_end [of "\<lparr>cqt = Map.empty, instances_gt = Map.empty,
        samples = [(''A'', ''1'', ''m'', 0, 2)], none_samples = [(''A'', ''1'', 3, 5)],
        duration_sec = 15\<rparr>" 2]
  by simp

subsection \<open>Subset selection\<close>

lemma enumerate_compr:
  "concat (map (\<lambda>(idx, x). if P x then [f idx] else []) (enumerate n xs))
     = map f (filter (\<lambda>i. P (xs ! (i - n))) [n ..< n + length xs])"
proof (induction xs arbitrary: n)
  case Nil
  then show ?case by simp
next
  case (Cons x xs)
  have cut: "[n ..< n + length (x # xs)] = n # [Suc n ..< Suc n + length xs]"
    by (simp add: upt_conv_Cons del: upt_Suc)
  have "filter (\<lambda>i. P ((x # xs) ! (i - n))) [Suc n ..< Suc n + length xs]
          = filter (\<lambda>i. P (xs ! (i - Suc n))) [Suc n ..< Suc n + length xs]"
    by (rule filter_cong) (auto simp: nth_Cons')
  then show ?case
    unfolding cut using Cons.IH [of "Suc n"] by (simp del: upt_Suc)
qed

lemma shifted_filter:
  "map (\<lambda>i. i + a) (filter (\<lambda>i. Q i) [0 ..< b]) = filter (\<lambda>i. Q (i - a)) [a ..< a + b]"
proof -
  have "[a ..< a + b] = map (\<lambda>i. i + a) [0 ..< b]"
    by (simp add: map_add_upt add.commute)
  then show ?thesis by (simp add: filter_map o_def)
qed

lemma subset_spec_split:
  "subset_spec ds versions acts =
     filter (\<lambda>i. selected versions acts (fst (samples ds ! i), fst (snd (samples ds ! i))))
            [0 ..< length (samples ds)]
     @ filter (\<lambda>i. selected versions acts
                      (fst (none_samples ds ! (i - length (samples ds))),
                       fst (snd (none_samples ds ! (i - length (samples ds))))))
            [length (samples ds) ..< length (samples ds) + length (none_samples ds)]"
proof -
  have "subset_spec ds versions acts =
      filter (\<lambda>i. selected versions acts (sample_rec ds i)) [0 ..< length (samples ds)]
      @ filter (\<lambda>i. selected versions acts (sample_rec ds i))
          [length (samples ds) ..< length (samples ds) + length (none_samples ds)]"
    unfolding subset_spec_def by (simp add: upt_add_eq_append [of 0] del: upt_Suc)
  also have "filter (\<lambda>i. selected versions acts (sample_rec ds i)) [0 ..< length (samples ds)]
      = filter (\<lambda>i. selected versions acts (fst (samples ds ! i), fst (snd (samples ds ! i))))
            [0 ..< length (samples ds)]"
    by (rule filter_cong) (auto simp: sample_rec_def)
  also have "filter (\<lambda>i. selected versions acts (sample_rec ds i))
          [length (samples ds) ..< length (samples ds) + length (none_samples ds)]
      = filter (\<lambda>i. selected versions acts
                      (fst (none_samples ds ! (i - length (samples ds))),
                       fst (snd (none_samples ds ! (i - length (samples ds))))))
            [length (samples ds) ..< length (samples ds) + length (none_samples ds)]"
    by (rule filter_cong) (auto simp: sample_rec_def)
  finally show ?thesis .
qed

text \<open>
  Claim C8. Without filters \<open>get_subset_idxs\<close> returns \<open>[0, ..., len - 1]\<close>; with
  a versions filter, an acts filter or both it returns exactly the global indices
  whose sample passes the filters that are given, positive samples first (indices as
  they are), negative samples after them (indices offset by \<open>len(samples)\<close>), each in
  list order: that is \<open>subset_spec\<close>.
\<close>

theorem get_subset_idxs_spec:
  "get_subset_idxs ds None None = [0 ..< length (samples ds) + length (none_samples ds)]
   \<and> get_subset_idxs ds versions acts = subset_spec ds versions acts"
proof -
  have a: "get_subset_idxs ds None None = subset_spec ds None None"
    by (simp add: subset_spec_def get_subset_idxs_def selected_def)
  have b: "get_subset_idxs ds None (Some A) = subset_spec ds None (Some A)" for A
    unfolding subset_spec_split get_subset_idxs_def selected_def
    by (simp add: enumerate_compr shifted_filter del: upt_Suc)
  have c: "get_subset_idxs ds (Some V) None = subset_spec ds (Some V) None" for V
    unfolding subset_spec_split get_subset_idxs_def selected_def
    by (simp add: enumerate_compr shifted_filter del: upt_Suc)
  have d: "get_subset_idxs ds (Some V) (Some A) = subset_spec ds (Some V) (Some A)" for V A
    unfolding subset_spec_split get_subset_idxs_def selected_def
    by (simp add: enumerate_compr shifted_filter del: upt_Suc)
  have "get_subset_idxs ds versions acts = subset_spec ds versions acts"
    by (cases versions; cases acts) (simp_all only: a b c d)
  moreover have "get_subset_idxs ds None None = [0 ..< length (samples ds) + length (none_samples ds)]"
    by (simp add: get_subset_idxs_def)
  ultimately show ?thesis by simp
qed

subsection \<open>Seconds reported by \<open>query_motif\<close>\<close>









subsection \<open>Normalization in the converter\<close>

lemma foldl_max_divide:
  fixes c :: real
  assumes "0 < c"
  shows "foldl max (a / c) (map (\<lambda>x. x / c) xs) = foldl max a xs / c"
proof (induction xs arbitrary: a)
  case Nil
  then show ?case by simp
next
  case (Cons x xs)
  have "max (a / c) (x / c) = max a x / c"
    using assms by (simp add: max_def divide_le_cancel)
  then show ?case using Cons.IH [of "max a x"] by simp
qed

lemma row_max_divide:
  fixes c :: real
  assumes "0 < c" and "xs \<noteq> []"
  shows "row_max (map (\<lambda>x. x / c) xs) = row_max xs / c"
proof -
  obtain y ys where xs: "xs = y # ys" using assms(2) by (cases xs) auto
  show ?thesis
    unfolding row_max_def xs using foldl_max_divide [OF assms(1), of y ys] by simp
qed

lemma normalize_nth:
  assumes "i < length S" and "j < length (S ! i)"
  shows "normalize tiny S ! i ! j
           = S ! i ! j / (if axis0_norm S j < tiny then 1 else axis0_norm S j)"
  using assms by (simp add: normalize_def nth_enumerate_eq)

lemma normalize_column:
  assumes "\<forall>row \<in> set S. j < length row"
  shows "map (\<lambda>row. row ! j) (normalize tiny S)
           = map (\<lambda>row. row ! j / (if axis0_norm S j < tiny then 1 else axis0_norm S j)) S"
  using assms by (simp add: normalize_def nth_enumerate_eq o_def)

text \<open>
  Claim C6, as amended. The matrix the converter writes is peak-normalized per time
  frame, not per frequency bin: for every frame \<open>j\<close> of a non-empty rectangular
  magnitude matrix, the maximum over the bins of the absolute values in that frame is 1,
  unless the frame's peak is below the threshold, in which case the frame is written
  unchanged (an all-zero frame stays zero).
\<close>

theorem convert_normalizes_frames:
  assumes "cqt_mag \<noteq> []" and "\<forall>row \<in> set cqt_mag. length row = n_frames"
    and "j < n_frames" and "0 < tiny"
  shows "if axis0_norm cqt_mag j < tiny
         then map (\<lambda>row. row ! j) (convert tiny cqt_mag) = map (\<lambda>row. row ! j) cqt_mag
         else axis0_norm (convert tiny cqt_mag) j = 1"
proof (cases "axis0_norm cqt_mag j < tiny")
  case True
  have "\<forall>row \<in> set cqt_mag. j < length row" using assms(2,3) by simp
  from normalize_column [OF this, of tiny] True show ?thesis
    by (simp add: convert_def)
next
  case False
  define c where "c = axis0_norm cqt_mag j"
  have c: "0 < c" using False assms(4) by (simp add: c_def)
  have len: "\<forall>row \<in> set cqt_mag. j < length row" using assms(2,3) by simp
  have "map (\<lambda>row. \<bar>row ! j\<bar>) (convert tiny cqt_mag)
          = map (\<lambda>x. \<bar>x\<bar>) (map (\<lambda>row. row ! j) (convert tiny cqt_mag))"
    by (simp add: o_def)
  also have "\<dots> = map (\<lambda>x. \<bar>x\<bar>) (map (\<lambda>row. row ! j / c) cqt_mag)"
    using normalize_column [OF len, of tiny] False by (simp add: convert_def c_def)
  also have "\<dots> = map (\<lambda>x. x / c) (map (\<lambda>row. \<bar>row ! j\<bar>) cqt_mag)"
    using c by (simp add: o_def)
  finally have "axis0_norm (convert tiny cqt_mag) j
      = row_max (map (\<lambda>x. x / c) (map (\<lambda>row. \<bar>row ! j\<bar>) cqt_mag))"
    by (simp add: axis0_norm_def)
  also have "\<dots> = row_max (map (\<lambda>row. \<bar>row ! j\<bar>) cqt_mag) / c"
    by (rule row_max_divide [OF c]) (simp add: assms(1))
  also have "\<dots> = 1" using c by (simp add: axis0_norm_def c_def)
  finally show ?thesis using False by simp
qed

theorem convert_normalizes_frames_witness:
  "[[1, 1], [2, 2 :: real]] \<noteq> [] \<and> (0 :: nat) < 2 \<and> (0 :: real) < 1 / 2 ^ 126
   \<and> axis0_norm (convert (1 / 2 ^ 126) [[1, 1], [2, 2]]) 0 = 1"
  using convert_normalizes_frames [of "[[1, 1], [2, 2]]" 2 0 "1 / 2 ^ 126"]
  by (simp add: axis0_norm_def row_max_def)

text \<open>
  The claim as stated fails: for two bins and two frames \<open>[[1, 1], [2, 2]]\<close> the first
  bin is written as \<open>[1/2, 1/2]\<close>; its peak over time is 1/2, and it is not all zero.
\<close>

theorem convert_bins_not_normalized:
  "convert (1 / 2 ^ 126) [[1, 1], [2, 2]] = [[1 / 2, 1 / 2], [1, 1]]
   \<and> row_max (map abs (convert (1 / 2 ^ 126) [[1, 1], [2, 2]] ! 0)) = 1 / 2
   \<and> row_max (map abs (convert (1 / 2 ^ 126) [[1, 1], [2, 2]] ! 0)) \<noteq> 1
   \<and> convert (1 / 2 ^ 126) [[1, 1], [2, 2]] ! 0 \<noteq> [0, 0]"
  by (simp add: convert_def normalize_def axis0_norm_def row_max_def enumerate_eq_zip)

subsection \<open>The ground-truth tensor\<close>

lemma set_rows_length: "length (set_rows g a b j) = length g"
  by (simp add: set_rows_def)

lemma set_rows_binary:
  assumes "binary_rows g"
  shows "binary_rows (set_rows g a b j)"
proof -
  have "length r = 21 \<and> set r \<subseteq> {0, 1}" if "r \<in> set (set_rows g a b j)" for r
  proof -
    from that obtain i where i: "i < length g"
      and r: "r = (if slice_bound (length g) a \<le> i \<and> i < slice_bound (length g) b
                   then (g ! i)[j := 1] else g ! i)"
      by (auto simp: set_rows_def in_set_enumerate_eq)
    have gi: "length (g ! i) = 21 \<and> set (g ! i) \<subseteq> {0, 1}"
      using assms i by (simp add: binary_rows_def)
    have "set ((g ! i)[j := 1]) \<subseteq> insert 1 (set (g ! i))"
      by (rule set_update_subset_insert)
    with gi show ?thesis unfolding r by auto
  qed
  then show ?thesis unfolding binary_rows_def by blast
qed

lemma mark_instance_inv:
  assumes "mark_instance U g inst = Inr g'"
  shows "length g' = length g \<and> (binary_rows g \<longrightarrow> binary_rows g')"
  using assms
  by (auto simp: mark_instance_def set_rows_length set_rows_binary
           split: prod.splits sum.splits)

lemma mark_instances_inv:
  "mark_instances U g insts = Inr g' \<Longrightarrow> binary_rows g
     \<Longrightarrow> length g' = length g \<and> binary_rows g'"
proof (induction insts arbitrary: g)
  case Nil
  then show ?case by simp
next
  case (Cons inst rest)
  from Cons.prems(1) obtain g1 where g1: "mark_instance U g inst = Inr g1"
    and rest: "mark_instances U g1 rest = Inr g'"
    by (auto split: sum.splits)
  from mark_instance_inv [OF g1] Cons.prems(2)
  have "length g1 = length g" and "binary_rows g1" by simp_all
  with Cons.IH [OF rest] show ?case by simp
qed

lemma foldl_max_mem: "foldl max (a :: real) xs \<in> insert a (set xs)"
  by (induction xs arbitrary: a) (auto simp: max_def)

lemma foldl_max_ge: "(a :: real) \<le> foldl max a xs \<and> (\<forall>x \<in> set xs. x \<le> foldl max a xs)"
proof (induction xs arbitrary: a)
  case Nil
  then show ?case by simp
next
  case (Cons x xs)
  from Cons.IH [of "max a x"] show ?case by auto
qed

lemma row_max_mem: "xs \<noteq> [] \<Longrightarrow> row_max xs \<in> set xs"
  using foldl_max_mem [of "hd xs" "tl xs"] by (cases xs) (auto simp: row_max_def)

lemma row_max_ge: "x \<in> set xs \<Longrightarrow> x \<le> row_max xs"
  using foldl_max_ge [of "hd xs" "tl xs"] by (cases xs) (auto simp: row_max_def)

lemma none_entry:
  assumes "length r = 21" and "set r \<subseteq> {0, 1}"
  shows "(1 - row_max (butlast r) = 1) = (\<forall>j<20. r ! j = 0)"
proof -
  have ne: "butlast r \<noteq> []" using assms(1) by (cases r) auto
  have sub: "set (butlast r) \<subseteq> {0, 1}"
    using assms(2) by (meson in_set_butlastD subset_iff)
  have nth: "butlast r ! j = r ! j" if "j < 20" for j
    using that assms(1) by (simp add: nth_butlast)
  have len: "length (butlast r) = 20" using assms(1) by simp
  show ?thesis
  proof
    assume "1 - row_max (butlast r) = 1"
    then have m: "row_max (butlast r) = 0" by simp
    show "\<forall>j<20. r ! j = 0"
    proof (intro allI impI)
      fix j :: nat assume j: "j < 20"
      then have mem: "butlast r ! j \<in> set (butlast r)" using len by simp
      then have "butlast r ! j \<le> 0" using row_max_ge [OF mem] m by simp
      moreover have "butlast r ! j \<in> {0, 1}" using mem sub by blast
      ultimately show "r ! j = 0" using nth [OF j] by auto
    qed
  next
    assume all: "\<forall>j<20. r ! j = 0"
    from row_max_mem [OF ne] obtain j where "j < 20" "row_max (butlast r) = butlast r ! j"
      using len by (metis in_set_conv_nth)
    then show "1 - row_max (butlast r) = 1" using all nth by simp
  qed
qed

text \<open>
  Claim C2. In the ground-truth tensor that the constructor builds for a recording,
  at every frame \<open>f\<close> the "none" column (column 20) is 1 exactly when all 20 motif
  columns are 0, and it equals one minus the maximum of the 20 motif columns.
\<close>

theorem none_column_complement:
  assumes "build_gt U n instances = Inr g" and "f < n"
  shows "length g = n \<and> length (g ! f) = 21
         \<and> (g ! f ! 20 = 1 \<longleftrightarrow> (\<forall>j<20. g ! f ! j = 0))
         \<and> g ! f ! 20 = 1 - row_max (take 20 (g ! f))"
proof -
  from assms(1) obtain g0 where g0: "mark_instances U (replicate n (replicate 21 0)) instances = Inr g0"
    and g: "g = add_none g0"
    by (auto simp: build_gt_def split: sum.splits)
  have "binary_rows (replicate n (replicate 21 0))"
    by (auto simp: binary_rows_def)
  from mark_instances_inv [OF g0 this]
  have len0: "length g0 = n" and bin0: "binary_rows g0" by simp_all
  define r where "r = g0 ! f"
  have r: "length r = 21" "set r \<subseteq> {0, 1}"
    using bin0 len0 assms(2) by (simp_all add: binary_rows_def r_def)
  have gf: "g ! f = r[20 := 1 - row_max (butlast r)]"
    using len0 assms(2) r(1) by (simp add: g add_none_def r_def)
  have last: "g ! f ! 20 = 1 - row_max (butlast r)"
    using r(1) by (simp add: gf)
  have keep: "g ! f ! j = r ! j" if "j < 20" for j
    using that by (simp add: gf)
  have tk: "take 20 (g ! f) = butlast r"
    using r(1) by (simp add: gf butlast_conv_take)
  have "length g = n" by (simp add: g add_none_def len0)
  moreover have "length (g ! f) = 21" by (simp add: gf r(1))
  moreover have "(g ! f ! 20 = 1) = (\<forall>j<20. g ! f ! j = 0)"
    using none_entry [OF r] keep last by simp
  moreover have "g ! f ! 20 = 1 - row_max (take 20 (g ! f))"
    by (simp add: tk last)
  ultimately show ?thesis by simp
qed


lemma demo_gt:
  "build_gt demo_utils 2 [(''MotifA'', 0, 3 / 100)]
     = Inr [[1, 0, 0, 0, 0, 0, 0, 0, 0, 0, 0, 0, 0, 0, 0, 0, 0, 0, 0, 0, 0],
            [0, 0, 0, 0, 0, 0, 0, 0, 0, 0, 0, 0, 0, 0, 0, 0, 0, 0, 0, 0, 1]]"
  by (simp add: build_gt_def demo_utils_def spec_utils_def demo_table_def mark_instance_def
      dict_get_def col_index_def set_rows_def sec_to_frame_def py_round_def slice_bound_def
      add_none_def row_max_def enumerate_eq_zip numeral_2_eq_2 numeral_eq_Suc)

theorem none_column_complement_witness:
  "build_gt demo_utils 2 [(''MotifA'', 0, 3 / 100)]
     = Inr [[1, 0, 0, 0, 0, 0, 0, 0, 0, 0, 0, 0, 0, 0, 0, 0, 0, 0, 0, 0, 0],
            [0, 0, 0, 0, 0, 0, 0, 0, 0, 0, 0, 0, 0, 0, 0, 0, 0, 0, 0, 0, 1]]
   \<and> (1 :: nat) < 2
   \<and> [[1, 0, 0, 0, 0, 0, 0, 0, 0, 0, 0, 0, 0, 0, 0, 0, 0, 0, 0, 0, 0],
       [0, 0, 0, 0, 0, 0, 0, 0, 0, 0, 0, 0, 0, 0, 0, 0, 0, 0, 0, 0, 1 :: real]] ! 1 ! 20
       = 1 - row_max (take 20
          ([[1, 0, 0, 0, 0, 0, 0, 0, 0, 0, 0, 0, 0, 0, 0, 0, 0, 0, 0, 0, 0],
            [0, 0, 0, 0, 0, 0, 0, 0, 0, 0, 0, 0, 0, 0, 0, 0, 0, 0, 0, 0, 1]] ! 1))"
  using none_column_complement [OF demo_gt, of 1] demo_gt by simp

subsection \<open>An invariant of the constructor\<close>









subsection \<open>The accessor on datasets built by the constructor\<close>

lemmas run_simps =
  init_def add_recording_def build_gt_def mark_instance_def dict_get_def col_index_def
  set_rows_def add_none_def row_max_def total_duration_def positive_sample_def
  negative_sample_def none_samples_of_def none_loop.simps sec_to_frame_def py_round_def
  slice_bound_def spec_utils_def demo_utils_def demo_table_def demo_draws_def free_regions_def
  sample_free_interval_def positive_windows_def enumerate_eq_zip Let_def






















subsection \<open>Termination of the negative-sampling loop\<close>

lemma sweep_avoids:
  assumes "sorted (map (\<lambda>x. fst (snd x)) L)" and "(a, b) \<in> set (sweep T c L)"
  shows "c \<le> a \<and> a < b \<and> b \<le> T \<and> (\<forall>x \<in> set L. b \<le> fst (snd x) \<or> snd (snd x) \<le> a)"
  using assms
proof (induction L arbitrary: c)
  case Nil
  then show ?case by (auto split: if_splits)
next
  case (Cons x rest)
  obtain l s e where x: "x = (l, s, e)" by (cases x) auto
  have srt: "sorted (map (\<lambda>x. fst (snd x)) rest)" and le: "\<forall>y \<in> set rest. s \<le> fst (snd y)"
    using Cons.prems(1) by (auto simp: x)
  from Cons.prems(2) consider (head) "c < min s T" "(a, b) = (c, min s T)"
    | (tail) "(a, b) \<in> set (sweep T (max c e) rest)"
    by (auto simp: x split: if_splits)
  then show ?case
  proof cases
    case head
    then show ?thesis using le by (auto simp: x)
  next
    case tail
    from Cons.IH [OF srt tail] show ?thesis by (auto simp: x)
  qed
qed

lemma free_regions_avoid:
  assumes "(a, b) \<in> set (free_regions occ tot)"
  shows "0 \<le> a \<and> a < b \<and> b \<le> of_int tot
         \<and> (\<forall>x \<in> set occ. b \<le> fst (snd x) \<or> snd (snd x) \<le> a)"
  using sweep_avoids [of "sort_key (\<lambda>x. fst (snd x)) occ" a b "of_int tot" 0] assms
  by (simp add: free_regions_def)

lemma nth_filter_props:
  assumes "k < length (filter P xs)"
  shows "filter P xs ! k \<in> set xs \<and> P (filter P xs ! k)"
proof -
  have "filter P xs ! k \<in> set (filter P xs)" using assms by (rule nth_mem)
  then show ?thesis by simp
qed

lemma offset_inside:
  fixes a b d u :: real
  assumes "d \<le> b - a" and "0 \<le> u" and "u \<le> 1"
  shows "a \<le> a + u * (b - a - d) \<and> a + u * (b - a - d) + d \<le> b"
proof -
  define g where "g = b - a - d"
  have g: "0 \<le> g" using assms(1) by (simp add: g_def)
  have "0 \<le> u * g" using assms(2) g by simp
  moreover have "u * g \<le> 1 * g" using assms(3) g by (rule mult_right_mono)
  ultimately have "a \<le> a + u * g \<and> a + u * g + d \<le> b" by (simp add: g_def)
  then show ?thesis by (simp add: g_def)
qed

lemma sample_free_interval_inside:
  assumes "sample_free_interval draws regions d rng = (Some (s, e), rng')"
  shows "e = s + d \<and> (\<exists>r \<in> set regions. fst r \<le> s \<and> s + d \<le> snd r)"
proof -
  let ?fit = "filter (\<lambda>r. d \<le> snd r - fst r) regions"
  let ?r = "?fit ! (fst (draws rng) mod length ?fit)"
  let ?u = "max 0 (min 1 (snd (draws rng)))"
  from assms have ne: "?fit \<noteq> []"
    by (auto simp: sample_free_interval_def Let_def split: if_splits)
  with assms have s: "s = fst ?r + ?u * (snd ?r - fst ?r - d)" and e: "e = s + d"
    by (auto simp: sample_free_interval_def Let_def split: if_splits)
  have "fst (draws rng) mod length ?fit < length ?fit" using ne by simp
  from nth_filter_props [OF this]
  have r: "?r \<in> set regions" and fit: "d \<le> snd ?r - fst ?r" by blast+
  have "0 \<le> ?u" and "?u \<le> 1" by auto
  from offset_inside [OF fit this] have "fst ?r \<le> s \<and> s + d \<le> snd ?r"
    unfolding s .
  with r e show ?thesis by blast
qed

lemma sample_free_interval_rng:
  "sample_free_interval draws regions d rng = (None, rng') \<Longrightarrow> rng' = rng"
  by (auto simp: sample_free_interval_def Let_def split: if_splits)






subsection \<open>Free space decreases with every sampled interval\<close>














subsection \<open>Negative samples and annotated instances on the frame grid\<close>

text \<open>The second-to-frame conversion is monotone, so boundaries that are ordered in seconds
  and both rounded stay ordered in frames. Line 68 rounds only the start of a negative
  sample and adds \<open>duration_samples\<close> for its end.\<close>

lemma py_round_mono:
  assumes "x \<le> y"
  shows "py_round x \<le> py_round y"
proof (cases "\<lfloor>x\<rfloor> < \<lfloor>y\<rfloor>")
  case True
  have "py_round x \<le> \<lfloor>x\<rfloor> + 1" by (simp add: py_round_def)
  moreover have "\<lfloor>y\<rfloor> \<le> py_round y" by (simp add: py_round_def)
  ultimately show ?thesis using True by linarith
next
  case False
  with assms have eq: "\<lfloor>x\<rfloor> = \<lfloor>y\<rfloor>" using floor_mono [OF assms] by linarith
  have "x - of_int \<lfloor>x\<rfloor> \<le> y - of_int \<lfloor>y\<rfloor>" using assms eq by simp
  then show ?thesis unfolding py_round_def eq by (auto split: if_splits)
qed

lemma sec_to_frame_mono: "s \<le> t \<Longrightarrow> sec_to_frame s \<le> sec_to_frame t"
  unfolding sec_to_frame_def by (rule py_round_mono) (simp add: divide_right_mono)

text \<open>In seconds a sampled window avoids every occupied interval, and its start frame
  is not before the end frame of an instance that lies before it; the overlap can only
  arise at the end of the window.\<close>

lemma sampled_interval_avoids_occupied:
  assumes "sample_free_interval draws (free_regions occ tot) d rng = (Some (s, e), rng')"
    and "x \<in> set occ"
  shows "e \<le> fst (snd x) \<or> snd (snd x) \<le> s"
proof -
  from sample_free_interval_inside [OF assms(1)] obtain a b where e: "e = s + d"
    and r: "(a, b) \<in> set (free_regions occ tot)" and a: "a \<le> s" and b: "s + d \<le> b"
    by auto
  from free_regions_avoid [OF r] assms(2) have "b \<le> fst (snd x) \<or> snd (snd x) \<le> a"
    by blast
  with a b e show ?thesis by linarith
qed

lemma sampled_start_frame_after_instance:
  assumes "sample_free_interval draws (free_regions occ tot) d rng = (Some (s, e), rng')"
    and "(l, s', e') \<in> set occ" and "s' < e"
  shows "sec_to_frame e' \<le> sec_to_frame s"
proof -
  from sampled_interval_avoids_occupied [OF assms(1,2)] assms(3) have "e' \<le> s" by simp
  then show ?thesis by (rule sec_to_frame_mono)
qed

text \<open>
  Claim C1 fails on the code. A recording of 862 frames (20 s) has one instance
  \<open>(MotifA, 15.0349, 16.0349)\<close>; with the default durations (15 s, 646 frames) the
  sampler draws the window \<open>[0.03485, 15.03485]\<close>, which ends before the instance
  starts. Line 68 records the frame range \<open>[2, 648)\<close>; the instance occupies the
  frames \<open>[647, 691)\<close> (lines 37 and 38). Frame 647 lies in both ranges.
\<close>

theorem negative_sample_overlaps_instance:
  "total_duration 862 = 20
   \<and> free_regions [(Some ''MotifA'', 150349 / 10000, 160349 / 10000)] 20
       = [(0, 150349 / 10000), (160349 / 10000, 20)]
   \<and> sample_free_interval edge_draws [(0, 150349 / 10000), (160349 / 10000, 20)] 15 0
       = (Some (697 / 20000, 697 / 20000 + 15), 1)
   \<and> (697 / 20000 + 15 :: real) \<le> 150349 / 10000
   \<and> none_samples_of edge_utils ''A'' ''1'' (total_duration 862) 15 646
         [(''MotifA'', 150349 / 10000, 160349 / 10000)] 0
       = Some ([(''A'', ''1'', 2, 648)], 1)
   \<and> sec_to_frame (150349 / 10000) = 647
   \<and> sec_to_frame (160349 / 10000) = 691
   \<and> (2 :: int) \<le> 647 \<and> (647 :: int) < 648 \<and> (647 :: int) \<le> 647 \<and> (647 :: int) < 691"
  by (simp add: run_simps edge_utils_def edge_draws_def)

end
